theory Spec2Isabelle
  imports Main "HOL-Library.Word"
begin

unbundle bit_operations_syntax

section \<open>Data model of mod\_authz.c\<close>

text \<open>
  Modelled from the spec: the tri-state verdict \<open>{Granted, Denied, Error}\<close>. The C
  enumeration \<open>authz_status\<close> is declared in mod\_auth.h, not in mod\_authz.c; the three
  enumerators are the ones mod\_authz.c names.
\<close>

datatype authz_status = AUTHZ_DENIED | AUTHZ_GRANTED | AUTHZ_GENERAL_ERROR

text \<open>
  Modelled from the spec: the outcome \<open>{Continue, ChallengeAndDeny, ServerError}\<close>.
  \<open>authorize_user\<close> returns one of the three macros \<open>OK\<close>, \<open>HTTP_UNAUTHORIZED\<close>
  and \<open>HTTP_INTERNAL_SERVER_ERROR\<close> of httpd.h (pairwise different integers there).
\<close>

datatype http_code = OK | HTTP_UNAUTHORIZED | HTTP_INTERNAL_SERVER_ERROR

text \<open>
  The part of \<open>request_rec\<close> that mod\_authz.c touches. \<open>user\<close> is a C string that
  is \<open>NULL\<close> when no identity was established. \<open>r_notes\<close> is the APR table
  \<open>r->notes\<close>. The two last fields make the effects of the collaborators visible:
  \<open>error_log\<close> collects the lines given to \<open>ap_log_rerror\<close>, and
  \<open>auth_failures_noted\<close> counts the calls of \<open>ap_note_basic_auth_failure\<close>.
\<close>

record request_rec =
  user :: "string option"
  uri :: string
  method_number :: nat
  r_notes :: "string \<rightharpoonup> string"
  error_log :: "string list"
  auth_failures_noted :: nat

text \<open>
  A provider is a struct holding the function pointer \<open>check_authorization\<close>, which
  may be \<open>NULL\<close>. The function receives the request by pointer, so it may change it:
  it returns its verdict together with the request as it leaves it.
\<close>

type_synonym check_fn = "request_rec \<Rightarrow> 64 word \<Rightarrow> string \<Rightarrow> authz_status \<times> request_rec"

record authz_provider =
  check_authorization :: "check_fn option"

text \<open>
  One node of the singly linked list \<open>authz_provider_list\<close>. The \<open>next\<close> pointer is
  the tail of the HOL list that holds the nodes, and a \<open>NULL\<close> list is \<open>[]\<close>.
  \<open>provider\<close> is a pointer and may be \<open>NULL\<close>.
\<close>

record authz_provider_list =
  provider_name :: string
  requirement :: string
  method_mask :: "64 word"
  provider :: "authz_provider option"

text \<open>
  The per-directory configuration. \<open>ap_requires\<close> is a pointer to an APR array whose
  element type plays no role here, so it is a type parameter.
\<close>

record 'a authz_dir_conf =
  ap_requires :: "'a option"
  providers :: "authz_provider_list list"

text \<open>The field of \<open>cmd_parms\<close> that the directive handler reads.\<close>

record cmd_parms =
  limited :: "64 word"

text \<open>
  The string macros of mod\_auth.h used by the module. mod\_authz.c does not fix their
  values, so every function that needs them takes this record.
\<close>

record mod_auth_h =
  AUTHZ_PROVIDER_GROUP :: string
  AUTHZ_DEFAULT_PROVIDER :: string
  AUTHZ_PROVIDER_NAME_NOTE :: string

text \<open>
  The provider registry behind \<open>ap_lookup_provider (group, name, version)\<close>; a
  \<open>NULL\<close> result is \<open>None\<close>.
\<close>

type_synonym registry = "string \<Rightarrow> string \<Rightarrow> string \<Rightarrow> authz_provider option"

text \<open>
  Reading through a \<open>NULL\<close> pointer, or calling through a \<open>NULL\<close> function pointer,
  ends the run; it is a result of its own.
\<close>

datatype fault = NullDeref

section \<open>Collaborators\<close>

text \<open>
  Modelled from the spec: the functions of the server core and of APR that the module
  calls are not part of mod\_authz.c. The note is a single slot that is overwritten
  before a provider is called and cleared after it; the challenge and the log are
  delegated to collaborators, so only the fact that they were asked is recorded.
\<close>

definition apr_table_setn :: "string \<Rightarrow> string \<Rightarrow> request_rec \<Rightarrow> request_rec" where
  "apr_table_setn key val r = r\<lparr>r_notes := (r_notes r)(key \<mapsto> val)\<rparr>"

definition apr_table_unset :: "string \<Rightarrow> request_rec \<Rightarrow> request_rec" where
  "apr_table_unset key r = r\<lparr>r_notes := (r_notes r)(key := None)\<rparr>"

definition ap_log_rerror :: "string \<Rightarrow> request_rec \<Rightarrow> request_rec" where
  "ap_log_rerror line r = r\<lparr>error_log := error_log r @ [line]\<rparr>"

definition ap_note_basic_auth_failure :: "request_rec \<Rightarrow> request_rec" where
  "ap_note_basic_auth_failure r = r\<lparr>auth_failures_noted := Suc (auth_failures_noted r)\<rparr>"

text \<open>The \<open>%s\<close> conversion of the APR formatter prints \<open>(null)\<close> for a \<open>NULL\<close> string.\<close>

definition fmt_s :: "string option \<Rightarrow> string" where
  "fmt_s s = (case s of None \<Rightarrow> ''(null)'' | Some t \<Rightarrow> t)"

section \<open>Configuration\<close>

definition create_authz_dir_config :: "'a authz_dir_conf" where
  "create_authz_dir_config = \<lparr>ap_requires = None, providers = []\<rparr>"

definition merge_authz_dir_config :: "'a authz_dir_conf \<Rightarrow> 'a authz_dir_conf \<Rightarrow> 'a authz_dir_conf" where
  "merge_authz_dir_config base new =
     (let conf = base in
      case ap_requires new of
        Some a \<Rightarrow> conf\<lparr>ap_requires := Some a\<rparr>
      | None \<Rightarrow> conf)"

text \<open>Lines 87 to 95: the new node, with its provider looked up and cached.\<close>

definition new_authz_provider :: "mod_auth_h \<Rightarrow> registry \<Rightarrow> cmd_parms \<Rightarrow> string \<Rightarrow> authz_provider_list" where
  "new_authz_provider K reg cmd arg =
     \<lparr>provider_name = arg,
      requirement = arg,
      method_mask = limited cmd,
      provider = reg (AUTHZ_PROVIDER_GROUP K) arg ''0''\<rparr>"

text \<open>
  Lines 119 to 124: \<open>last\<close> starts at the head and walks while \<open>last->next\<close> is not
  \<open>NULL\<close>; then \<open>last->next = newp\<close>. The second argument is \<open>last->next\<close>.
\<close>

fun link_last :: "authz_provider_list \<Rightarrow> authz_provider_list list \<Rightarrow> authz_provider_list
    \<Rightarrow> authz_provider_list list" where
  "link_last lastp [] newp = [lastp, newp]"
| "link_last lastp (n # ns) newp = lastp # link_last n ns newp"

text \<open>
  The handler of the \<open>Require\<close> directive. It returns the error message (\<open>NULL\<close>, that
  is \<open>None\<close>, on success) and the configuration as it leaves it.
\<close>

definition unknown_provider_msg :: "string \<Rightarrow> string" where
  "unknown_provider_msg name = ''Unknown Authz provider: '' @ name"

definition unsupported_provider_msg :: "string \<Rightarrow> string" where
  "unsupported_provider_msg name =
     ''The '' @ [CHR 0x27] @ name @ [CHR 0x27] @ '' Authz provider is not supported by any ''
     @ ''of the loaded authorization modules ''"

definition add_authz_provider ::
  "mod_auth_h \<Rightarrow> registry \<Rightarrow> cmd_parms \<Rightarrow> 'a authz_dir_conf \<Rightarrow> string
    \<Rightarrow> string option \<times> 'a authz_dir_conf" where
  "add_authz_provider K reg cmd conf arg =
     (let newp = new_authz_provider K reg cmd arg in
      case provider newp of
        None \<Rightarrow> (Some (unknown_provider_msg (provider_name newp)), conf)
      | Some p \<Rightarrow>
          (case check_authorization p of
             None \<Rightarrow> (Some (unsupported_provider_msg (provider_name newp)), conf)
           | Some _ \<Rightarrow>
               (None,
                conf\<lparr>providers :=
                  (case providers conf of
                     [] \<Rightarrow> [newp]
                   | lastp # rest \<Rightarrow> link_last lastp rest newp)\<rparr>)))"

section \<open>The module table and the merge of scopes\<close>

text \<open>
  Lines 266 to 275: the two per-directory slots of \<open>authz_module\<close>. The creator is
  \<open>create_authz_dir_config\<close>; the dir merger is \<open>NULL\<close> (\<open>default is to override\<close>), so
  \<open>merge_authz_dir_config\<close> above is defined but never installed. The server slots are
  \<open>NULL\<close> and play no role here.
\<close>

record 'a module_struct =
  create_dir_config :: "'a authz_dir_conf option"
  merge_dir_config :: "('a authz_dir_conf \<Rightarrow> 'a authz_dir_conf \<Rightarrow> 'a authz_dir_conf) option"

definition authz_module :: "'a module_struct" where
  "authz_module = \<lparr>create_dir_config = Some create_authz_dir_config, merge_dir_config = None\<rparr>"

text \<open>
  Modelled from the spec: the merge of a parent scope and a child scope is done by the
  server core, which is not part of mod\_authz.c. A module that installs a dir merger has
  it called on the two configurations. For a module without one the specification says:
  \<open>merge(parent, child)\<close> returns \<open>child\<close> unchanged if non-empty, else returns
  \<open>parent\<close> unchanged; all-or-nothing per scope, never entry-wise.
\<close>

definition merge_per_dir_config ::
  "'a module_struct \<Rightarrow> 'a authz_dir_conf \<Rightarrow> 'a authz_dir_conf \<Rightarrow> 'a authz_dir_conf" where
  "merge_per_dir_config m parent child =
     (case merge_dir_config m of
        Some df \<Rightarrow> df parent child
      | None \<Rightarrow> if providers child \<noteq> [] then child else parent)"

section \<open>The authorization check\<close>

text \<open>
  One call of a provider as the run makes it: the node whose provider was called, the
  request as it was handed to the provider, the verdict, and the request right after
  the note was unset again.
\<close>

record authz_call =
  called :: authz_provider_list
  passed :: request_rec
  verdict :: authz_status
  left :: request_rec

text \<open>\<open>current_provider\<close> is a pointer to a node: the rest of the list, or \<open>NULL\<close>.\<close>

definition current_binding :: "authz_provider_list list \<Rightarrow> authz_provider_list option" where
  "current_binding cur = (case cur of [] \<Rightarrow> None | b # _ \<Rightarrow> Some b)"

text \<open>
  Lines 152 to 169: choose the provider and set the note. \<open>Inl\<close> is the branch that
  logs, sets \<open>auth_result = AUTHZ_GENERAL_ERROR\<close> and breaks.
\<close>

definition select_provider ::
  "mod_auth_h \<Rightarrow> registry \<Rightarrow> authz_provider_list list \<Rightarrow> request_rec
    \<Rightarrow> request_rec + (authz_provider option \<times> request_rec)" where
  "select_provider K reg cur r =
     (case current_binding cur of
        None \<Rightarrow>
          (case reg (AUTHZ_PROVIDER_GROUP K) (AUTHZ_DEFAULT_PROVIDER K) ''0'' of
             None \<Rightarrow> Inl (ap_log_rerror ''No default authz provider configured'' r)
           | Some p \<Rightarrow>
               (case check_authorization p of
                  None \<Rightarrow> Inl (ap_log_rerror ''No default authz provider configured'' r)
                | Some _ \<Rightarrow>
                    Inr (Some p,
                         apr_table_setn (AUTHZ_PROVIDER_NAME_NOTE K) (AUTHZ_DEFAULT_PROVIDER K) r)))
      | Some b \<Rightarrow>
          Inr (provider b, apr_table_setn (AUTHZ_PROVIDER_NAME_NOTE K) (provider_name b) r))"

text \<open>
  Lines 172 to 174, the one place where a provider is called. The function pointer is
  read through \<open>provider\<close>, and both arguments are read through \<open>current_provider\<close>.
\<close>

definition call_check ::
  "authz_provider option \<Rightarrow> authz_provider_list option \<Rightarrow> request_rec
    \<Rightarrow> fault + (authz_provider_list \<times> authz_status \<times> request_rec)" where
  "call_check prov current_provider r =
     (case prov of
        None \<Rightarrow> Inl NullDeref
      | Some p \<Rightarrow>
          (case check_authorization p of
             None \<Rightarrow> Inl NullDeref
           | Some chk \<Rightarrow>
               (case current_provider of
                  None \<Rightarrow> Inl NullDeref
                | Some b \<Rightarrow> Inr (b, chk r (method_mask b) (requirement b)))))"

text \<open>
  The \<open>do ... while (current_provider)\<close> loop of lines 146 to 193. \<open>cur\<close> is
  \<open>current_provider\<close>, \<open>tr\<close> the calls made so far. The result is the calls made and
  either a fault or \<open>auth_result\<close> with the request as the loop leaves it.
\<close>

function authz_loop ::
  "mod_auth_h \<Rightarrow> registry \<Rightarrow> 'a authz_dir_conf \<Rightarrow> authz_provider_list list
    \<Rightarrow> authz_call list \<Rightarrow> request_rec
    \<Rightarrow> authz_call list \<times> (fault + authz_status \<times> request_rec)" where
  "authz_loop K reg conf cur tr r =
     (case select_provider K reg cur r of
        Inl r' \<Rightarrow> (tr, Inr (AUTHZ_GENERAL_ERROR, r'))
      | Inr (prov, r1) \<Rightarrow>
          (case call_check prov (current_binding cur) r1 of
             Inl f \<Rightarrow> (tr, Inl f)
           | Inr (b, auth_result, r2) \<Rightarrow>
               (let r3 = apr_table_unset (AUTHZ_PROVIDER_NAME_NOTE K) r2;
                    tr' = tr @ [\<lparr>called = b, passed = r1, verdict = auth_result, left = r3\<rparr>]
                in if auth_result \<noteq> AUTHZ_DENIED then (tr', Inr (auth_result, r3))
                   else if providers conf = [] then (tr', Inr (auth_result, r3))
                   else if tl cur = [] then (tr', Inr (auth_result, r3))
                   else authz_loop K reg conf (tl cur) tr' r3)))"
  by pat_completeness auto
termination
  by (relation "measure (\<lambda>(K, reg, conf, cur, tr, r). length cur)")
     (auto simp: call_check_def current_binding_def split: option.splits list.splits)

text \<open>Lines 195 to 222: from \<open>auth_result\<close> to the return code.\<close>

definition authz_return :: "authz_status \<Rightarrow> request_rec \<Rightarrow> http_code \<times> request_rec" where
  "authz_return auth_result r =
     (if auth_result \<noteq> AUTHZ_GRANTED then
        (case (case auth_result of
                 AUTHZ_DENIED \<Rightarrow>
                   (HTTP_UNAUTHORIZED,
                    ap_log_rerror (''user '' @ fmt_s (user r) @ '': authorization failure for ''
                                   @ [CHR 0x22] @ uri r @ [CHR 0x22] @ '': '') r)
               | _ \<Rightarrow> (HTTP_INTERNAL_SERVER_ERROR, r)) of
           (return_code, r') \<Rightarrow>
             (return_code,
              if return_code = HTTP_UNAUTHORIZED then ap_note_basic_auth_failure r' else r'))
      else (OK, r))"

definition authorize_user ::
  "mod_auth_h \<Rightarrow> registry \<Rightarrow> 'a authz_dir_conf \<Rightarrow> request_rec
    \<Rightarrow> authz_call list \<times> (fault + http_code \<times> request_rec)" where
  "authorize_user K reg conf r =
     (case authz_loop K reg conf (providers conf) [] r of
        (tr, Inl f) \<Rightarrow> (tr, Inl f)
      | (tr, Inr (auth_result, r')) \<Rightarrow> (tr, Inr (authz_return auth_result r')))"

section \<open>The applicability query\<close>

text \<open>
  Lines 243 to 253. \<open>AP_METHOD_BIT\<close> is the 64-bit integer 1; the shift is defined in
  C for method numbers below the width of the mask only.
\<close>

fun some_auth_required_loop :: "authz_provider_list list \<Rightarrow> request_rec \<Rightarrow> int" where
  "some_auth_required_loop [] r = 0"
| "some_auth_required_loop (b # rest) r =
     (if method_mask b AND push_bit (method_number r) 1 \<noteq> 0 then 1
      else some_auth_required_loop rest r)"

definition authz_some_auth_required :: "'a authz_dir_conf \<Rightarrow> request_rec \<Rightarrow> int" where
  "authz_some_auth_required conf r = some_auth_required_loop (providers conf) r"

definition authz_ap_requires :: "'a authz_dir_conf \<Rightarrow> 'a option" where
  "authz_ap_requires conf = ap_requires conf"

section \<open>Well-formed bindings\<close>

text \<open>
  The function pointer a node leads to: \<open>current_provider->provider->check_authorization\<close>,
  with \<open>None\<close> when one of the two pointers is \<open>NULL\<close>.
\<close>

definition binding_check :: "authz_provider_list \<Rightarrow> check_fn option" where
  "binding_check b = (case provider b of None \<Rightarrow> None | Some p \<Rightarrow> check_authorization p)"

text \<open>
  A node is resolved when its provider pointer and the provider's function pointer are
  both set. \<open>add_authz_provider\<close> links resolved nodes only.
\<close>

definition binding_resolved :: "authz_provider_list \<Rightarrow> bool" where
  "binding_resolved b = (case binding_check b of None \<Rightarrow> False | Some _ \<Rightarrow> True)"

section \<open>The directive syntax in the words of the specification\<close>

text \<open>
  The specification describes the argument of the directive as a first token, the
  provider name, followed by a free-form requirement. These two functions follow that
  wording (tokens end at a blank); they are not part of mod\_authz.c.
\<close>

definition spec_first_token :: "string \<Rightarrow> string" where
  "spec_first_token arg = takeWhile (\<lambda>c. c \<noteq> CHR '' '') arg"

definition spec_remainder :: "string \<Rightarrow> string" where
  "spec_remainder arg =
     dropWhile (\<lambda>c. c = CHR '' '') (dropWhile (\<lambda>c. c \<noteq> CHR '' '') arg)"

section \<open>Sample inputs\<close>

definition sample_macros :: mod_auth_h where
  "sample_macros =
     \<lparr>AUTHZ_PROVIDER_GROUP = ''authz'',
      AUTHZ_DEFAULT_PROVIDER = ''file'',
      AUTHZ_PROVIDER_NAME_NOTE = ''authz_provider_name''\<rparr>"

definition answering :: "authz_status \<Rightarrow> authz_provider" where
  "answering v = \<lparr>check_authorization = Some (\<lambda>r m s. (v, r))\<rparr>"

definition incapable :: authz_provider where
  "incapable = \<lparr>check_authorization = None\<rparr>"

definition sample_registry :: registry where
  "sample_registry g n v =
     (if g = ''authz'' \<and> v = ''0'' then
        (if n = ''file'' then Some (answering AUTHZ_GRANTED)
         else if n = ''user'' then Some (answering AUTHZ_DENIED)
         else if n = ''ldap'' then Some (answering AUTHZ_GENERAL_ERROR)
         else if n = ''stub'' then Some incapable
         else None)
      else None)"

definition bare_registry :: registry where
  "bare_registry g n v =
     (if g = ''authz'' \<and> v = ''0'' \<and> n = ''user'' then Some (answering AUTHZ_DENIED) else None)"

definition sample_binding :: "string \<Rightarrow> 64 word \<Rightarrow> authz_status \<Rightarrow> authz_provider_list" where
  "sample_binding n m v =
     \<lparr>provider_name = n, requirement = n, method_mask = m, provider = Some (answering v)\<rparr>"

definition sample_conf :: "authz_provider_list list \<Rightarrow> unit authz_dir_conf" where
  "sample_conf bs = \<lparr>ap_requires = None, providers = bs\<rparr>"

definition sample_request :: request_rec where
  "sample_request =
     \<lparr>user = Some ''alice'', uri = ''/private'', method_number = 0, r_notes = Map.empty,
      error_log = [], auth_failures_noted = 0\<rparr>"

definition sample_cmd :: cmd_parms where
  "sample_cmd = \<lparr>limited = - 1\<rparr>"

text \<open>Three bindings answering Denied, Error, Granted, in this order.\<close>

definition sample_chain :: "unit authz_dir_conf" where
  "sample_chain = sample_conf [sample_binding ''user'' 1 AUTHZ_DENIED,
     sample_binding ''ldap'' 2 AUTHZ_GENERAL_ERROR, sample_binding ''file'' 4 AUTHZ_GRANTED]"

section \<open>Stepping the loop\<close>

declare authz_loop.simps [simp del]

lemma link_last_append: "link_last p ps newp = (p # ps) @ [newp]"
  by (induction ps arbitrary: p) auto

text \<open>The handler keeps the list resolved, starting from the empty configuration.\<close>

lemma create_authz_dir_config_resolved:
  "list_all binding_resolved (providers create_authz_dir_config)"
  by (simp add: create_authz_dir_config_def)

lemma add_authz_provider_resolved:
  assumes "list_all binding_resolved (providers conf)"
  shows "list_all binding_resolved (providers (snd (add_authz_provider K reg cmd conf arg)))"
  using assms
  by (auto simp: add_authz_provider_def Let_def link_last_append binding_resolved_def
        binding_check_def split: option.splits list.splits)

lemma msgs_differ: "unknown_provider_msg a \<noteq> unsupported_provider_msg b"
  by (simp add: unknown_provider_msg_def unsupported_provider_msg_def)

text \<open>With \<open>current_provider = NULL\<close> the body is entered once, through the default provider.\<close>

lemma select_provider_Nil: "select_provider K reg [] r =
   (case reg (AUTHZ_PROVIDER_GROUP K) (AUTHZ_DEFAULT_PROVIDER K) ''0'' of
        None \<Rightarrow> Inl (ap_log_rerror ''No default authz provider configured'' r)
      | Some p \<Rightarrow> (case check_authorization p of None \<Rightarrow> Inl (ap_log_rerror ''No default authz provider configured'' r)
           | Some _ \<Rightarrow> Inr (Some p, apr_table_setn (AUTHZ_PROVIDER_NAME_NOTE K) (AUTHZ_DEFAULT_PROVIDER K) r)))"
  by (simp add: select_provider_def current_binding_def)

lemma authz_loop_Nil:
  "authz_loop K reg conf [] tr r =
     (case reg (AUTHZ_PROVIDER_GROUP K) (AUTHZ_DEFAULT_PROVIDER K) ''0'' of
        None \<Rightarrow> (tr, Inr (AUTHZ_GENERAL_ERROR, ap_log_rerror ''No default authz provider configured'' r))
      | Some p \<Rightarrow>
          (case check_authorization p of
             None \<Rightarrow> (tr, Inr (AUTHZ_GENERAL_ERROR, ap_log_rerror ''No default authz provider configured'' r))
           | Some _ \<Rightarrow> (tr, Inl NullDeref)))"
proof (cases "reg (AUTHZ_PROVIDER_GROUP K) (AUTHZ_DEFAULT_PROVIDER K) ''0''")
  case None
  then show ?thesis
    by (subst authz_loop.simps) (simp add: select_provider_Nil)
next
  case (Some p)
  show ?thesis
  proof (cases "check_authorization p")
    case None
    then show ?thesis using Some
      by (subst authz_loop.simps) (simp add: select_provider_Nil)
  next
    case (Some chk)
    then show ?thesis using \<open>reg (AUTHZ_PROVIDER_GROUP K) (AUTHZ_DEFAULT_PROVIDER K) ''0'' = Some p\<close>
      by (subst authz_loop.simps) (simp add: select_provider_Nil call_check_def current_binding_def)
  qed
qed

lemma authz_loop_Cons_unresolved:
  assumes "binding_check b = None"
  shows "authz_loop K reg conf (b # rest) tr r = (tr, Inl NullDeref)"
  using assms
  by (subst authz_loop.simps)
     (simp add: select_provider_def current_binding_def call_check_def binding_check_def
           split: option.splits)

lemma authz_loop_Cons:
  assumes "binding_check b = Some chk"
  shows "authz_loop K reg conf (b # rest) tr r =
     (let r1 = apr_table_setn (AUTHZ_PROVIDER_NAME_NOTE K) (provider_name b) r;
          res = chk r1 (method_mask b) (requirement b);
          r3 = apr_table_unset (AUTHZ_PROVIDER_NAME_NOTE K) (snd res);
          tr' = tr @ [\<lparr>called = b, passed = r1, verdict = fst res, left = r3\<rparr>]
      in if fst res \<noteq> AUTHZ_DENIED \<or> providers conf = [] \<or> rest = [] then (tr', Inr (fst res, r3))
         else authz_loop K reg conf rest tr' r3)"
  using assms
  by (subst authz_loop.simps)
     (auto simp: select_provider_def current_binding_def call_check_def binding_check_def Let_def
           split: option.splits prod.splits)

lemma authz_loop_walk:
  assumes "cur \<noteq> []" "list_all binding_resolved cur" "providers conf \<noteq> []"
  shows "\<exists>tr v r'. authz_loop K reg conf cur tr0 r = (tr0 @ tr, Inr (v, r')) \<and> tr \<noteq> []
      \<and> length tr \<le> length cur \<and> map called tr = take (length tr) cur
      \<and> (\<forall>c\<in>set (butlast tr). verdict c = AUTHZ_DENIED) \<and> verdict (last tr) = v
      \<and> (v = AUTHZ_DENIED \<longrightarrow> length tr = length cur)
      \<and> (\<forall>c\<in>set tr. \<exists>chk. binding_check (called c) = Some chk
            \<and> verdict c = fst (chk (passed c) (method_mask (called c)) (requirement (called c))))"
  using assms
proof (induction cur arbitrary: tr0 r)
  case Nil
  then show ?case by simp
next
  case (Cons b rest)
  from Cons.prems obtain chk where chk: "binding_check b = Some chk"
    by (auto simp: binding_resolved_def split: option.splits)
  define r1 where "r1 = apr_table_setn (AUTHZ_PROVIDER_NAME_NOTE K) (provider_name b) r"
  define res where "res = chk r1 (method_mask b) (requirement b)"
  define r3 where "r3 = apr_table_unset (AUTHZ_PROVIDER_NAME_NOTE K) (snd res)"
  define c where "c = \<lparr>called = b, passed = r1, verdict = fst res, left = r3\<rparr>"
  have step: "authz_loop K reg conf (b # rest) tr0 r =
      (if fst res \<noteq> AUTHZ_DENIED \<or> rest = [] then (tr0 @ [c], Inr (fst res, r3))
       else authz_loop K reg conf rest (tr0 @ [c]) r3)"
    using Cons.prems(3) by (simp add: authz_loop_Cons [OF chk] Let_def r1_def res_def r3_def c_def)
  have cprop: "binding_check (called c) = Some chk
      \<and> verdict c = fst (chk (passed c) (method_mask (called c)) (requirement (called c)))"
    by (simp add: c_def chk res_def)
  show ?case
  proof (cases "fst res \<noteq> AUTHZ_DENIED \<or> rest = []")
    case True
    then have "authz_loop K reg conf (b # rest) tr0 r = (tr0 @ [c], Inr (fst res, r3))"
      using step by simp
    moreover have "called c = b" "verdict c = fst res" by (simp_all add: c_def)
    ultimately show ?thesis using True cprop
      by (intro exI [of _ "[c]"] exI [of _ "fst res"] exI [of _ r3]) auto
  next
    case False
    then have den: "fst res = AUTHZ_DENIED" and ne: "rest \<noteq> []" by auto
    from Cons.prems have "list_all binding_resolved rest" by simp
    from Cons.IH [OF ne this Cons.prems(3), of "tr0 @ [c]" r3]
    obtain tr v r' where ih:
      "authz_loop K reg conf rest (tr0 @ [c]) r3 = ((tr0 @ [c]) @ tr, Inr (v, r'))"
      "tr \<noteq> []" "length tr \<le> length rest" "map called tr = take (length tr) rest"
      "\<forall>c\<in>set (butlast tr). verdict c = AUTHZ_DENIED" "verdict (last tr) = v"
      "v = AUTHZ_DENIED \<longrightarrow> length tr = length rest"
      "\<forall>c\<in>set tr. \<exists>chk. binding_check (called c) = Some chk
            \<and> verdict c = fst (chk (passed c) (method_mask (called c)) (requirement (called c)))"
      by blast
    have cb: "called c = b" and cv: "verdict c = AUTHZ_DENIED" by (simp_all add: c_def den)
    have "authz_loop K reg conf (b # rest) tr0 r = (tr0 @ (c # tr), Inr (v, r'))"
      using step False ih(1) by simp
    moreover have "map called (c # tr) = take (length (c # tr)) (b # rest)"
      using ih(4) cb by simp
    moreover have "\<forall>x\<in>set (butlast (c # tr)). verdict x = AUTHZ_DENIED"
      using ih(2,5) cv by simp
    moreover have "verdict (last (c # tr)) = v" using ih(2,6) by simp
    moreover have "\<forall>x\<in>set (c # tr). \<exists>chk. binding_check (called x) = Some chk
            \<and> verdict x = fst (chk (passed x) (method_mask (called x)) (requirement (called x)))"
      using ih(8) cprop by auto
    ultimately show ?thesis using ih(3,7)
      by (intro exI [of _ "c # tr"] exI [of _ v] exI [of _ r']) simp
  qed
qed

text \<open>The note is set for every call and unset after it, whatever the provider does.\<close>

lemma authz_loop_notes:
  assumes "\<forall>c\<in>set tr. r_notes (passed c) (AUTHZ_PROVIDER_NAME_NOTE K) = Some (provider_name (called c))
             \<and> r_notes (left c) (AUTHZ_PROVIDER_NAME_NOTE K) = None"
  shows "\<forall>c\<in>set (fst (authz_loop K reg conf cur tr r)).
           r_notes (passed c) (AUTHZ_PROVIDER_NAME_NOTE K) = Some (provider_name (called c))
             \<and> r_notes (left c) (AUTHZ_PROVIDER_NAME_NOTE K) = None"
  using assms
proof (induction cur arbitrary: tr r)
  case Nil
  then show ?case by (simp add: authz_loop_Nil split: option.splits)
next
  case (Cons b rest)
  show ?case
  proof (cases "binding_check b")
    case None
    then show ?thesis using Cons.prems by (simp add: authz_loop_Cons_unresolved)
  next
    case (Some chk)
    define r1 where "r1 = apr_table_setn (AUTHZ_PROVIDER_NAME_NOTE K) (provider_name b) r"
    define res where "res = chk r1 (method_mask b) (requirement b)"
    define r3 where "r3 = apr_table_unset (AUTHZ_PROVIDER_NAME_NOTE K) (snd res)"
    define c where "c = \<lparr>called = b, passed = r1, verdict = fst res, left = r3\<rparr>"
    have ok: "\<forall>x\<in>set (tr @ [c]).
        r_notes (passed x) (AUTHZ_PROVIDER_NAME_NOTE K) = Some (provider_name (called x))
          \<and> r_notes (left x) (AUTHZ_PROVIDER_NAME_NOTE K) = None"
      using Cons.prems
      by (auto simp: c_def r1_def r3_def apr_table_setn_def apr_table_unset_def)
    have "authz_loop K reg conf (b # rest) tr r = (tr @ [c], Inr (fst res, r3))
        \<or> authz_loop K reg conf (b # rest) tr r = authz_loop K reg conf rest (tr @ [c]) r3"
      by (simp add: authz_loop_Cons [OF Some] Let_def r1_def res_def r3_def c_def)
    then show ?thesis
    proof
      assume "authz_loop K reg conf (b # rest) tr r = (tr @ [c], Inr (fst res, r3))"
      then show ?thesis using ok by simp
    next
      assume "authz_loop K reg conf (b # rest) tr r = authz_loop K reg conf rest (tr @ [c]) r3"
      then show ?thesis using Cons.IH [OF ok, of r3] by simp
    qed
  qed
qed

text \<open>What the note held before the run has no influence on the calls or on the result.\<close>

lemma apr_table_setn_overwrites:
  "apr_table_setn key val (r\<lparr>r_notes := (r_notes r)(key := x)\<rparr>) = apr_table_setn key val r"
  by (simp add: apr_table_setn_def)

lemma authz_loop_Nil_note_irrelevant:
  "map verdict (fst (authz_loop K reg conf [] tr (r\<lparr>r_notes := (r_notes r)(AUTHZ_PROVIDER_NAME_NOTE K := x)\<rparr>)))
     = map verdict (fst (authz_loop K reg conf [] tr r))
   \<and> map_sum id fst (snd (authz_loop K reg conf [] tr (r\<lparr>r_notes := (r_notes r)(AUTHZ_PROVIDER_NAME_NOTE K := x)\<rparr>)))
     = map_sum id fst (snd (authz_loop K reg conf [] tr r))"
  unfolding authz_loop_Nil by (simp split: option.split)

lemma authz_loop_Cons_note_irrelevant:
  assumes "binding_check b = Some chk"
  shows "authz_loop K reg conf (b # rest) tr (r\<lparr>r_notes := (r_notes r)(AUTHZ_PROVIDER_NAME_NOTE K := x)\<rparr>)
        = authz_loop K reg conf (b # rest) tr r"
  unfolding authz_loop_Cons [OF assms] apr_table_setn_overwrites ..

lemma authz_loop_note_irrelevant:
  "map verdict (fst (authz_loop K reg conf cur tr (r\<lparr>r_notes := (r_notes r)(AUTHZ_PROVIDER_NAME_NOTE K := x)\<rparr>)))
     = map verdict (fst (authz_loop K reg conf cur tr r))
   \<and> map_sum id fst (snd (authz_loop K reg conf cur tr (r\<lparr>r_notes := (r_notes r)(AUTHZ_PROVIDER_NAME_NOTE K := x)\<rparr>)))
     = map_sum id fst (snd (authz_loop K reg conf cur tr r))"
proof (cases cur)
  case Nil
  show ?thesis unfolding Nil by (rule authz_loop_Nil_note_irrelevant)
next
  case (Cons b rest)
  show ?thesis
  proof (cases "binding_check b")
    case None
    show ?thesis unfolding Cons authz_loop_Cons_unresolved [OF None] by simp
  next
    case (Some chk)
    show ?thesis unfolding Cons authz_loop_Cons_note_irrelevant [OF Some] by simp
  qed
qed

lemma some_auth_required_loop_masks_eq:
  "some_auth_required_loop bs r =
     (if \<exists>m\<in>set (map method_mask bs). bit m (method_number r) then 1 else 0)"
proof (induction bs)
  case Nil
  show ?case by simp
next
  case (Cons b bs)
  have "(method_mask b AND push_bit (method_number r) 1 \<noteq> 0) = bit (method_mask b) (method_number r)"
    by (simp add: and_exp_eq_0_iff_not_bit)
  then show ?case using Cons by simp
qed

lemma some_auth_required_loop_eq:
  "some_auth_required_loop bs r =
     (if \<exists>b\<in>set bs. bit (method_mask b) (method_number r) then 1 else 0)"
  by (simp add: some_auth_required_loop_masks_eq)


lemma some_auth_required_loop_masks:
  assumes "map method_mask bs' = map method_mask bs"
  shows "some_auth_required_loop bs' r = some_auth_required_loop bs r"
  unfolding some_auth_required_loop_masks_eq assms ..

lemma sample_binding_fields:
  "provider_name (sample_binding n m v) = n"
  "requirement (sample_binding n m v) = n"
  "method_mask (sample_binding n m v) = m"
  "provider (sample_binding n m v) = Some (answering v)"
  by (simp_all add: sample_binding_def)

section \<open>Evaluation order (C1)\<close>

text \<open>
  C1. For a non-empty list of resolved bindings the loop returns a verdict, and the calls
  it made are the bindings of a non-empty prefix of the list, in the order of the list,
  whatever the method of the request and the masks are. Each recorded verdict is what the
  called provider's check returned on the binding's own mask and requirement. Every call
  but the last returned \<open>AUTHZ_DENIED\<close>, the verdict of the last call is the final verdict,
  and the final verdict is \<open>AUTHZ_DENIED\<close> exactly when all bindings were called and every
  call returned \<open>AUTHZ_DENIED\<close>.
\<close>

theorem authz_loop_declaration_order:
  assumes "providers conf \<noteq> []" and "list_all binding_resolved (providers conf)"
  shows "\<exists>tr v r'. authz_loop K reg conf (providers conf) [] r = (tr, Inr (v, r'))
      \<and> tr \<noteq> [] \<and> length tr \<le> length (providers conf)
      \<and> map called tr = take (length tr) (providers conf)
      \<and> (\<forall>c\<in>set tr. \<exists>chk. binding_check (called c) = Some chk
            \<and> verdict c = fst (chk (passed c) (method_mask (called c)) (requirement (called c))))
      \<and> (\<forall>c\<in>set (butlast tr). verdict c = AUTHZ_DENIED)
      \<and> verdict (last tr) = v
      \<and> (v = AUTHZ_DENIED) =
          (length tr = length (providers conf) \<and> (\<forall>c\<in>set tr. verdict c = AUTHZ_DENIED))"
proof -
  from authz_loop_walk [OF assms(1) assms(2) assms(1), of K reg "[]" r]
  obtain tr v r' where w:
    "authz_loop K reg conf (providers conf) [] r = (tr, Inr (v, r'))"
    "tr \<noteq> []" "length tr \<le> length (providers conf)"
    "map called tr = take (length tr) (providers conf)"
    "\<forall>c\<in>set (butlast tr). verdict c = AUTHZ_DENIED" "verdict (last tr) = v"
    "v = AUTHZ_DENIED \<longrightarrow> length tr = length (providers conf)"
    "\<forall>c\<in>set tr. \<exists>chk. binding_check (called c) = Some chk
          \<and> verdict c = fst (chk (passed c) (method_mask (called c)) (requirement (called c)))"
    by auto
  have "set (butlast tr @ [last tr]) = insert (last tr) (set (butlast tr))"
    by simp
  then have split: "set tr = insert (last tr) (set (butlast tr))"
    using w(2) by simp
  have "(v = AUTHZ_DENIED) =
      (length tr = length (providers conf) \<and> (\<forall>c\<in>set tr. verdict c = AUTHZ_DENIED))"
    using w(5,6,7) split by auto
  with w show ?thesis by blast
qed

theorem authz_loop_declaration_order_witness:
  "providers sample_chain \<noteq> [] \<and> list_all binding_resolved (providers sample_chain)
   \<and> (\<exists>tr v r'. authz_loop sample_macros sample_registry sample_chain (providers sample_chain) []
            sample_request = (tr, Inr (v, r'))
      \<and> tr \<noteq> [] \<and> length tr \<le> length (providers sample_chain)
      \<and> map called tr = take (length tr) (providers sample_chain)
      \<and> (\<forall>c\<in>set tr. \<exists>chk. binding_check (called c) = Some chk
            \<and> verdict c = fst (chk (passed c) (method_mask (called c)) (requirement (called c))))
      \<and> (\<forall>c\<in>set (butlast tr). verdict c = AUTHZ_DENIED)
      \<and> verdict (last tr) = v
      \<and> (v = AUTHZ_DENIED) =
          (length tr = length (providers sample_chain) \<and> (\<forall>c\<in>set tr. verdict c = AUTHZ_DENIED)))"
proof -
  have ne: "providers sample_chain \<noteq> []"
    by (simp add: sample_chain_def sample_conf_def)
  have res: "list_all binding_resolved (providers sample_chain)"
    by (simp add: sample_chain_def sample_conf_def binding_resolved_def binding_check_def
        sample_binding_def answering_def)
  from ne res authz_loop_declaration_order [OF ne res, of sample_macros sample_registry sample_request]
  show ?thesis by (intro conjI)
qed

section \<open>The default provider (C2, C3, C6)\<close>

text \<open>
  C2. Evaluated at an empty binding list with a default provider that resolves, has the
  check capability and would grant: the run does not return \<open>OK\<close>. No provider is
  called, and the run ends in the read through the \<open>NULL\<close> \<open>current_provider\<close>.
\<close>

theorem authorize_user_default_granting:
  "sample_registry (AUTHZ_PROVIDER_GROUP sample_macros) (AUTHZ_DEFAULT_PROVIDER sample_macros) ''0''
     = Some (answering AUTHZ_GRANTED)
   \<and> providers (sample_conf []) = []
   \<and> authorize_user sample_macros sample_registry (sample_conf []) sample_request
     = ([], Inl NullDeref)"
  by (simp add: authorize_user_def authz_loop_Nil sample_conf_def sample_registry_def
      sample_macros_def answering_def)

text \<open>
  C3. Evaluated at the same configuration: the default provider is selected, the current
  binding is \<open>None\<close>, and the call site takes its \<open>None\<close> branch.
\<close>

theorem call_check_reaches_null_binding:
  "select_provider sample_macros sample_registry (providers (sample_conf [])) sample_request
     = Inr (Some (answering AUTHZ_GRANTED),
            apr_table_setn ''authz_provider_name'' ''file'' sample_request)
   \<and> current_binding (providers (sample_conf [])) = None
   \<and> call_check (Some (answering AUTHZ_GRANTED)) (current_binding (providers (sample_conf [])))
        (apr_table_setn ''authz_provider_name'' ''file'' sample_request) = Inl NullDeref
   \<and> authz_loop sample_macros sample_registry (sample_conf []) (providers (sample_conf [])) []
        sample_request = ([], Inl NullDeref)"
  by (simp add: select_provider_Nil authz_loop_Nil call_check_def current_binding_def
      sample_conf_def sample_registry_def sample_macros_def answering_def)

text \<open>
  C6. With an empty binding list and a default provider that is not registered, or is
  registered without a check function, the final verdict is \<open>AUTHZ_GENERAL_ERROR\<close>, the
  return code is \<open>HTTP_INTERNAL_SERVER_ERROR\<close>, no provider is called, and the request is
  left as it was but for one line in the error log.
\<close>

theorem authorize_user_no_default:
  assumes "providers conf = []"
    and "reg (AUTHZ_PROVIDER_GROUP K) (AUTHZ_DEFAULT_PROVIDER K) ''0'' = None
       \<or> (\<exists>p. reg (AUTHZ_PROVIDER_GROUP K) (AUTHZ_DEFAULT_PROVIDER K) ''0'' = Some p
             \<and> check_authorization p = None)"
  shows "authz_loop K reg conf (providers conf) [] r
       = ([], Inr (AUTHZ_GENERAL_ERROR, ap_log_rerror ''No default authz provider configured'' r))
     \<and> authorize_user K reg conf r
       = ([], Inr (HTTP_INTERNAL_SERVER_ERROR,
                   ap_log_rerror ''No default authz provider configured'' r))
     \<and> auth_failures_noted (ap_log_rerror ''No default authz provider configured'' r)
       = auth_failures_noted r"
proof -
  have loop: "authz_loop K reg conf [] [] r
       = ([], Inr (AUTHZ_GENERAL_ERROR, ap_log_rerror ''No default authz provider configured'' r))"
    using assms(2) by (auto simp: authz_loop_Nil)
  have ret: "authz_return AUTHZ_GENERAL_ERROR (ap_log_rerror ''No default authz provider configured'' r)
       = (HTTP_INTERNAL_SERVER_ERROR, ap_log_rerror ''No default authz provider configured'' r)"
    by (simp add: authz_return_def)
  have user: "authorize_user K reg conf r
       = ([], Inr (HTTP_INTERNAL_SERVER_ERROR,
                   ap_log_rerror ''No default authz provider configured'' r))"
    by (simp add: authorize_user_def assms(1) loop ret)
  have same: "auth_failures_noted (ap_log_rerror ''No default authz provider configured'' r)
       = auth_failures_noted r"
    by (simp add: ap_log_rerror_def)
  show ?thesis unfolding assms(1) using loop user same by (intro conjI)
qed

theorem authorize_user_no_default_witness:
  "providers (sample_conf []) = []
   \<and> bare_registry (AUTHZ_PROVIDER_GROUP sample_macros) (AUTHZ_DEFAULT_PROVIDER sample_macros) ''0''
       = None
   \<and> authorize_user sample_macros bare_registry (sample_conf []) sample_request
       = ([], Inr (HTTP_INTERNAL_SERVER_ERROR,
                   ap_log_rerror ''No default authz provider configured'' sample_request))"
proof -
  have e: "providers (sample_conf []) = []" by (simp add: sample_conf_def)
  have n: "bare_registry (AUTHZ_PROVIDER_GROUP sample_macros) (AUTHZ_DEFAULT_PROVIDER sample_macros) ''0''
       = None"
    by (simp add: bare_registry_def sample_macros_def)
  have d: "bare_registry (AUTHZ_PROVIDER_GROUP sample_macros) (AUTHZ_DEFAULT_PROVIDER sample_macros) ''0''
       = None
     \<or> (\<exists>p. bare_registry (AUTHZ_PROVIDER_GROUP sample_macros) (AUTHZ_DEFAULT_PROVIDER sample_macros) ''0''
           = Some p \<and> check_authorization p = None)"
    using n by (rule disjI1)
  from authorize_user_no_default [where conf = "sample_conf []" and reg = bare_registry
      and K = sample_macros and r = sample_request, OF e d] e n
  show ?thesis by (intro conjI) simp_all
qed

section \<open>Merging (C4)\<close>

text \<open>
  The function \<open>merge_authz_dir_config\<close> would keep the list of the base whatever the
  new configuration holds; the module table does not install it.
\<close>

lemma merge_authz_dir_config_providers:
  "providers (merge_authz_dir_config base new) = providers base"
  by (simp add: merge_authz_dir_config_def split: option.split)

text \<open>
  C4. With the module table as it is, merging a parent and a child scope yields the
  child's configuration unchanged when the child's binding list is non-empty, and the
  parent's configuration unchanged when it is empty. The merged list is therefore one
  of the two lists as a whole, never a combination of entries of both.
\<close>

theorem authz_module_merge_all_or_nothing:
  "merge_per_dir_config authz_module parent child
     = (if providers child \<noteq> [] then child else parent)
   \<and> providers (merge_per_dir_config authz_module parent child)
     = (if providers child \<noteq> [] then providers child else providers parent)"
  by (simp add: merge_per_dir_config_def authz_module_def)

theorem authz_module_merge_all_or_nothing_witness:
  "providers (merge_per_dir_config authz_module
      (sample_conf [sample_binding ''user'' 1 AUTHZ_DENIED, sample_binding ''file'' 4 AUTHZ_GRANTED])
      (sample_conf [sample_binding ''ldap'' 2 AUTHZ_GENERAL_ERROR]))
     = [sample_binding ''ldap'' 2 AUTHZ_GENERAL_ERROR]
   \<and> providers (merge_per_dir_config authz_module
      (sample_conf [sample_binding ''user'' 1 AUTHZ_DENIED, sample_binding ''file'' 4 AUTHZ_GRANTED])
      (sample_conf []))
     = [sample_binding ''user'' 1 AUTHZ_DENIED, sample_binding ''file'' 4 AUTHZ_GRANTED]"
  using authz_module_merge_all_or_nothing
      [of "sample_conf [sample_binding ''user'' 1 AUTHZ_DENIED, sample_binding ''file'' 4 AUTHZ_GRANTED]"
          "sample_conf [sample_binding ''ldap'' 2 AUTHZ_GENERAL_ERROR]"]
    authz_module_merge_all_or_nothing
      [of "sample_conf [sample_binding ''user'' 1 AUTHZ_DENIED, sample_binding ''file'' 4 AUTHZ_GRANTED]"
          "sample_conf []"]
  by (simp add: sample_conf_def)

section \<open>From verdict to return code (C5)\<close>

text \<open>
  C5. \<open>AUTHZ_GRANTED\<close> gives \<open>OK\<close> and leaves the request as it is; \<open>AUTHZ_DENIED\<close>
  gives \<open>HTTP_UNAUTHORIZED\<close> and notes one authentication failure;
  \<open>AUTHZ_GENERAL_ERROR\<close> gives \<open>HTTP_INTERNAL_SERVER_ERROR\<close> and leaves the request as
  it is. For every verdict, a failure is noted exactly when the verdict is
  \<open>AUTHZ_DENIED\<close>, and otherwise the count of noted failures is unchanged.
\<close>

theorem authz_return_mapping:
  "authz_return AUTHZ_GRANTED r = (OK, r)
   \<and> fst (authz_return AUTHZ_DENIED r) = HTTP_UNAUTHORIZED
   \<and> auth_failures_noted (snd (authz_return AUTHZ_DENIED r)) = Suc (auth_failures_noted r)
   \<and> authz_return AUTHZ_GENERAL_ERROR r = (HTTP_INTERNAL_SERVER_ERROR, r)
   \<and> fst (authz_return v r)
      = (case v of AUTHZ_GRANTED \<Rightarrow> OK | AUTHZ_DENIED \<Rightarrow> HTTP_UNAUTHORIZED
         | AUTHZ_GENERAL_ERROR \<Rightarrow> HTTP_INTERNAL_SERVER_ERROR)
   \<and> (auth_failures_noted (snd (authz_return v r)) = Suc (auth_failures_noted r))
      = (v = AUTHZ_DENIED)
   \<and> (auth_failures_noted (snd (authz_return v r)) = auth_failures_noted r)
      = (v \<noteq> AUTHZ_DENIED)"
  by (cases v) (simp_all add: authz_return_def ap_note_basic_auth_failure_def ap_log_rerror_def)

section \<open>The Require directive (C7, C8)\<close>

text \<open>
  C7. The handler returns the unknown-provider message exactly when the registry has no
  provider under the name it looks up, the unsupported-provider message exactly when the
  provider found has no check function, and no message exactly when the provider found
  has one. With no message the new node is appended at the end of the list and nothing
  else changes; with a message the configuration is unchanged.
\<close>

theorem add_authz_provider_outcomes:
  "(fst (add_authz_provider K reg cmd conf arg) = Some (unknown_provider_msg arg))
      = (reg (AUTHZ_PROVIDER_GROUP K) arg ''0'' = None)
   \<and> (fst (add_authz_provider K reg cmd conf arg) = Some (unsupported_provider_msg arg))
      = (\<exists>p. reg (AUTHZ_PROVIDER_GROUP K) arg ''0'' = Some p \<and> check_authorization p = None)
   \<and> (fst (add_authz_provider K reg cmd conf arg) = None)
      = (\<exists>p chk. reg (AUTHZ_PROVIDER_GROUP K) arg ''0'' = Some p
            \<and> check_authorization p = Some chk)
   \<and> snd (add_authz_provider K reg cmd conf arg)
      = (if fst (add_authz_provider K reg cmd conf arg) = None
         then conf\<lparr>providers := providers conf @ [new_authz_provider K reg cmd arg]\<rparr>
         else conf)"
  by (auto simp: add_authz_provider_def new_authz_provider_def Let_def link_last_append
        msgs_differ msgs_differ [symmetric] split: option.splits list.splits)

theorem add_authz_provider_outcomes_witness:
  "fst (add_authz_provider sample_macros sample_registry sample_cmd sample_chain ''user'') = None
   \<and> map provider_name
        (providers (snd (add_authz_provider sample_macros sample_registry sample_cmd sample_chain ''user'')))
       = [''user'', ''ldap'', ''file'', ''user'']"
proof -
  have "sample_registry (AUTHZ_PROVIDER_GROUP sample_macros) ''user'' ''0''
      = Some (answering AUTHZ_DENIED) \<and> check_authorization (answering AUTHZ_DENIED) \<noteq> None"
    by (simp add: sample_registry_def sample_macros_def answering_def)
  then show ?thesis
    using add_authz_provider_outcomes [of sample_macros sample_registry sample_cmd sample_chain "''user''"]
    by (auto simp: sample_chain_def sample_conf_def sample_binding_def new_authz_provider_def)
qed

text \<open>
  C8. Evaluated at the argument \<open>user alice\<close>: the node built has the whole argument as
  its provider name and as its requirement, not the first token and the remainder, and
  the lookup under that name fails although \<open>user\<close> is registered.
\<close>

theorem new_authz_provider_whole_argument:
  "provider_name (new_authz_provider sample_macros sample_registry sample_cmd ''user alice'')
     = ''user alice''
   \<and> requirement (new_authz_provider sample_macros sample_registry sample_cmd ''user alice'')
     = ''user alice''
   \<and> spec_first_token ''user alice'' = ''user''
   \<and> spec_remainder ''user alice'' = ''alice''
   \<and> sample_registry (AUTHZ_PROVIDER_GROUP sample_macros) ''user'' ''0'' \<noteq> None
   \<and> fst (add_authz_provider sample_macros sample_registry sample_cmd (sample_conf []) ''user alice'')
     = Some (unknown_provider_msg ''user alice'')"
  by (simp add: new_authz_provider_def add_authz_provider_def spec_first_token_def
      spec_remainder_def sample_registry_def sample_macros_def)

section \<open>The applicability query (C9)\<close>

text \<open>
  C9. For a method number below the width of the mask, \<open>authz_some_auth_required\<close>
  returns 1 when some binding's mask has the bit of the method set and 0 otherwise; it
  returns 0 on the empty list; and its result depends on the masks of the bindings only,
  not on their providers, names or requirements.
\<close>

theorem authz_some_auth_required_iff:
  assumes "method_number r < 64"
  shows "(authz_some_auth_required conf r = 1)
        = (\<exists>b\<in>set (providers conf). bit (method_mask b) (method_number r))
     \<and> (authz_some_auth_required conf r = 0)
        = (\<not> (\<exists>b\<in>set (providers conf). bit (method_mask b) (method_number r)))
     \<and> (providers conf = [] \<longrightarrow> authz_some_auth_required conf r = 0)
     \<and> (\<forall>conf' :: 'b authz_dir_conf.
           map method_mask (providers conf') = map method_mask (providers conf)
           \<longrightarrow> authz_some_auth_required conf' r = authz_some_auth_required conf r)"
proof -
  have one: "(authz_some_auth_required conf r = 1)
        = (\<exists>b\<in>set (providers conf). bit (method_mask b) (method_number r))"
    by (simp add: authz_some_auth_required_def some_auth_required_loop_eq)
  have zero: "(authz_some_auth_required conf r = 0)
        = (\<not> (\<exists>b\<in>set (providers conf). bit (method_mask b) (method_number r)))"
    by (simp add: authz_some_auth_required_def some_auth_required_loop_eq)
  have empty: "providers conf = [] \<longrightarrow> authz_some_auth_required conf r = 0"
    by (simp add: authz_some_auth_required_def)
  have masks: "\<forall>conf' :: 'b authz_dir_conf.
           map method_mask (providers conf') = map method_mask (providers conf)
           \<longrightarrow> authz_some_auth_required conf' r = authz_some_auth_required conf r"
  proof (intro allI impI)
    fix conf' :: "'b authz_dir_conf"
    assume "map method_mask (providers conf') = map method_mask (providers conf)"
    then show "authz_some_auth_required conf' r = authz_some_auth_required conf r"
      unfolding authz_some_auth_required_def by (rule some_auth_required_loop_masks)
  qed
  from one zero empty masks show ?thesis by (intro conjI)
qed

theorem authz_some_auth_required_iff_witness:
  "method_number (sample_request\<lparr>method_number := 2\<rparr>) < 64
   \<and> (\<exists>b\<in>set (providers sample_chain).
         bit (method_mask b) (method_number (sample_request\<lparr>method_number := 2\<rparr>)))
   \<and> authz_some_auth_required sample_chain (sample_request\<lparr>method_number := 2\<rparr>) = 1"
proof -
  have m: "method_number (sample_request\<lparr>method_number := 2\<rparr>) < 64"
    by simp
  have ex: "\<exists>b\<in>set (providers sample_chain).
         bit (method_mask b) (method_number (sample_request\<lparr>method_number := 2\<rparr>))"
    by (simp add: sample_chain_def sample_conf_def sample_binding_fields bit_iff_odd)
  from authz_some_auth_required_iff [OF m, of sample_chain] ex
  have "authz_some_auth_required sample_chain (sample_request\<lparr>method_number := 2\<rparr>) = 1"
    by blast
  with m ex show ?thesis by (intro conjI)
qed

section \<open>The provider-name note (C10)\<close>

text \<open>
  C10. In every run, each provider is handed a request whose note holds the name of the
  binding being called, and the note is absent from the request right after the call.
  Changing what the note holds before the run changes neither the verdicts of the calls
  nor the final verdict (or fault) of the loop, nor the return code of
  \<open>authorize_user\<close>.
\<close>

theorem authz_loop_note_side_channel:
  "(\<forall>c\<in>set (fst (authz_loop K reg conf (providers conf) [] r)).
       r_notes (passed c) (AUTHZ_PROVIDER_NAME_NOTE K) = Some (provider_name (called c))
       \<and> r_notes (left c) (AUTHZ_PROVIDER_NAME_NOTE K) = None)
   \<and> map verdict (fst (authz_loop K reg conf (providers conf) []
          (r\<lparr>r_notes := (r_notes r)(AUTHZ_PROVIDER_NAME_NOTE K := x)\<rparr>)))
     = map verdict (fst (authz_loop K reg conf (providers conf) [] r))
   \<and> map_sum id fst (snd (authz_loop K reg conf (providers conf) []
          (r\<lparr>r_notes := (r_notes r)(AUTHZ_PROVIDER_NAME_NOTE K := x)\<rparr>)))
     = map_sum id fst (snd (authz_loop K reg conf (providers conf) [] r))
   \<and> map_sum id fst (snd (authorize_user K reg conf
          (r\<lparr>r_notes := (r_notes r)(AUTHZ_PROVIDER_NAME_NOTE K := x)\<rparr>)))
     = map_sum id fst (snd (authorize_user K reg conf r))"
proof -
  let ?r' = "r\<lparr>r_notes := (r_notes r)(AUTHZ_PROVIDER_NAME_NOTE K := x)\<rparr>"
  have disc: "\<forall>c\<in>set (fst (authz_loop K reg conf (providers conf) [] r)).
       r_notes (passed c) (AUTHZ_PROVIDER_NAME_NOTE K) = Some (provider_name (called c))
       \<and> r_notes (left c) (AUTHZ_PROVIDER_NAME_NOTE K) = None"
    by (rule authz_loop_notes) simp
  note irr = authz_loop_note_irrelevant [of K reg conf "providers conf" "[]" r x]
  have code: "map_sum id fst (snd (authorize_user K reg conf ?r'))
      = map_sum id fst (snd (authorize_user K reg conf r))"
  proof (cases "providers conf")
    case Nil
    show ?thesis unfolding authorize_user_def Nil authz_loop_Nil
      by (simp add: authz_return_def split: option.split)
  next
    case (Cons b rest)
    show ?thesis
    proof (cases "binding_check b")
      case None
      show ?thesis unfolding authorize_user_def Cons authz_loop_Cons_unresolved [OF None] by simp
    next
      case (Some chk)
      show ?thesis unfolding authorize_user_def Cons authz_loop_Cons_note_irrelevant [OF Some] by simp
    qed
  qed
  from disc irr code show ?thesis by (intro conjI) simp_all
qed

theorem authz_loop_note_side_channel_witness:
  "list_all (\<lambda>c. r_notes (passed c) ''authz_provider_name'' = Some (provider_name (called c))
       \<and> r_notes (left c) ''authz_provider_name'' = None)
     (fst (authz_loop sample_macros sample_registry sample_chain (providers sample_chain) []
         sample_request))
   \<and> map (provider_name \<circ> called)
        (fst (authz_loop sample_macros sample_registry sample_chain (providers sample_chain) []
           sample_request)) = [''user'', ''ldap'']"
proof -
  have k: "AUTHZ_PROVIDER_NAME_NOTE sample_macros = ''authz_provider_name''"
    by (simp add: sample_macros_def)
  have c: "binding_check (sample_binding n m v) = Some (\<lambda>r m s. (v, r))" for n m v
    by (simp add: binding_check_def sample_binding_def answering_def)
  have run: "map (provider_name \<circ> called)
        (fst (authz_loop sample_macros sample_registry sample_chain (providers sample_chain) []
           sample_request)) = [''user'', ''ldap'']"
    by (simp add: sample_chain_def sample_conf_def authz_loop_Cons [OF c] Let_def
        sample_binding_fields)
  from authz_loop_note_side_channel [of sample_macros sample_registry sample_chain sample_request]
  show ?thesis unfolding k list_all_iff using run by blast
qed

end
